theory Spec2Isabelle
  imports Complex_Main "HOL-Library.Word" "HOL-Library.Sublist"
begin

section \<open>JavaScript strings\<close>

text \<open>
  A JavaScript string is a sequence of UTF-16 code units. The functions below are the
  string methods that \<^verbatim>\<open>src/main/main.js\<close> and the renderer call, each with the
  meaning ECMAScript gives it.
\<close>

type_synonym jsstring = "16 word list"

text \<open>An ASCII literal as a JavaScript string.\<close>

definition S :: "string \<Rightarrow> jsstring" where
  "S s = map (\<lambda>c. of_nat (of_char c)) s"

text \<open>
  \<^verbatim>\<open>String.prototype.trim\<close> strips WhiteSpace and LineTerminator code units from both
  ends: TAB, LF, VT, FF, CR, SP, NBSP, U+1680, U+2000..U+200A, U+2028, U+2029, U+202F,
  U+205F, U+3000 and U+FEFF.
\<close>

definition isWhiteSpace :: "16 word \<Rightarrow> bool" where
  "isWhiteSpace c \<longleftrightarrow>
     c = 0x09 \<or> c = 0x0A \<or> c = 0x0B \<or> c = 0x0C \<or> c = 0x0D \<or> c = 0x20 \<or> c = 0xA0 \<or>
     c = 0x1680 \<or> (0x2000 \<le> c \<and> c \<le> 0x200A) \<or> c = 0x2028 \<or> c = 0x2029 \<or>
     c = 0x202F \<or> c = 0x205F \<or> c = 0x3000 \<or> c = 0xFEFF"

definition trim :: "jsstring \<Rightarrow> jsstring" where
  "trim s = rev (dropWhile isWhiteSpace (rev (dropWhile isWhiteSpace s)))"

text \<open>\<^verbatim>\<open>s.split('\n')\<close>: the empty string splits into one empty piece.\<close>

fun split_nl :: "jsstring \<Rightarrow> jsstring list" where
  "split_nl [] = [[]]"
| "split_nl (c # cs) =
     (if c = 0x0A then [] # split_nl cs
      else (case split_nl cs of [] \<Rightarrow> [[c]] | l # ls \<Rightarrow> (c # l) # ls))"

text \<open>\<^verbatim>\<open>lines.join('\n')\<close>\<close>

fun join_nl :: "jsstring list \<Rightarrow> jsstring" where
  "join_nl [] = []"
| "join_nl [l] = l"
| "join_nl (l # ls) = l @ [0x0A] @ join_nl ls"

fun startsWith :: "jsstring \<Rightarrow> jsstring \<Rightarrow> bool" where
  "startsWith s [] = True"
| "startsWith [] (p # ps) = False"
| "startsWith (c # cs) (p # ps) = (c = p \<and> startsWith cs ps)"

fun includes_str :: "jsstring \<Rightarrow> jsstring \<Rightarrow> bool" where
  "includes_str [] p = startsWith [] p"
| "includes_str (c # cs) p = (startsWith (c # cs) p \<or> includes_str cs p)"

definition isDigit :: "16 word \<Rightarrow> bool" where
  "isDigit c \<longleftrightarrow> 0x30 \<le> c \<and> c \<le> 0x39"

text \<open>
  \<^verbatim>\<open>s.match(/^\d+%\|/)\<close> as a truth value: one or more ASCII digits at the start of the
  string, then a percent sign, then a pipe.
\<close>

definition match_progress_bar :: "jsstring \<Rightarrow> bool" where
  "match_progress_bar s =
     (takeWhile isDigit s \<noteq> [] \<and>
      (case dropWhile isDigit s of a # b # _ \<Rightarrow> a = 0x25 \<and> b = 0x7C | _ \<Rightarrow> False))"

section \<open>JSON values and \<^verbatim>\<open>JSON.parse\<close>\<close>

text \<open>
  The values \<^verbatim>\<open>JSON.parse\<close> can return. An object keeps its members in the order of the
  text; a number keeps the exact decimal value of its literal (the rounding to a double
  is not part of the model, except in the zero test of \<open>truthy\<close> below).
\<close>

datatype json =
    JNull
  | JBool bool
  | JNum rat
  | JStr jsstring
  | JArr "json list"
  | JObj "(jsstring \<times> json) list"

text \<open>JSON whitespace: space, TAB, LF, CR.\<close>

definition isJsonWs :: "16 word \<Rightarrow> bool" where
  "isJsonWs c \<longleftrightarrow> c = 0x20 \<or> c = 0x09 \<or> c = 0x0A \<or> c = 0x0D"

definition skip_ws :: "jsstring \<Rightarrow> jsstring" where
  "skip_ws s = dropWhile isJsonWs s"

definition hexval :: "16 word \<Rightarrow> nat option" where
  "hexval c =
     (if 0x30 \<le> c \<and> c \<le> 0x39 then Some (unat c - 0x30)
      else if 0x41 \<le> c \<and> c \<le> 0x46 then Some (unat c - 0x41 + 10)
      else if 0x61 \<le> c \<and> c \<le> 0x66 then Some (unat c - 0x61 + 10)
      else None)"

definition hex4 :: "16 word \<Rightarrow> 16 word \<Rightarrow> 16 word \<Rightarrow> 16 word \<Rightarrow> 16 word option" where
  "hex4 a b c d =
     (case (hexval a, hexval b, hexval c, hexval d) of
        (Some w, Some x, Some y, Some z) \<Rightarrow> Some (of_nat (((w * 16 + x) * 16 + y) * 16 + z))
      | _ \<Rightarrow> None)"

text \<open>The single-character escapes of a JSON string.\<close>

definition unescape :: "16 word \<Rightarrow> 16 word option" where
  "unescape e =
     (if e = 0x22 then Some 0x22 else if e = 0x5C then Some 0x5C
      else if e = 0x2F then Some 0x2F else if e = 0x62 then Some 0x08
      else if e = 0x66 then Some 0x0C else if e = 0x6E then Some 0x0A
      else if e = 0x72 then Some 0x0D else if e = 0x74 then Some 0x09
      else None)"

text \<open>
  The characters of a JSON string after its opening quote, up to the closing quote;
  the result is the string's value and the rest of the input.
\<close>

fun json_chars :: "jsstring \<Rightarrow> (jsstring \<times> jsstring) option" where
  "json_chars [] = None"
| "json_chars (c # cs) =
     (if c = 0x22 then Some ([], cs)
      else if c = 0x5C then
        (case cs of
           [] \<Rightarrow> None
         | e # r \<Rightarrow>
             (if e = 0x75 then
                (case r of
                   h1 # h2 # h3 # h4 # r' \<Rightarrow>
                     (case hex4 h1 h2 h3 h4 of
                        None \<Rightarrow> None
                      | Some u \<Rightarrow> map_option (\<lambda>(s, rest). (u # s, rest)) (json_chars r'))
                 | _ \<Rightarrow> None)
              else
                (case unescape e of
                   None \<Rightarrow> None
                 | Some u \<Rightarrow> map_option (\<lambda>(s, rest). (u # s, rest)) (json_chars r))))
      else if c < 0x20 then None
      else map_option (\<lambda>(s, rest). (c # s, rest)) (json_chars cs))"

definition digits_value :: "jsstring \<Rightarrow> nat" where
  "digits_value ds = foldl (\<lambda>n d. 10 * n + (unat d - 0x30)) 0 ds"

text \<open>
  A JSON number: an optional minus, an integer part without a leading zero, an optional
  fraction, an optional exponent.
\<close>

definition json_exponent :: "jsstring \<Rightarrow> (int \<times> jsstring) option" where
  "json_exponent s =
     (case s of
        [] \<Rightarrow> Some (0, s)
      | c # cs \<Rightarrow>
          (if c = 0x65 \<or> c = 0x45 then
             (let (neg, r) =
                (case cs of
                   [] \<Rightarrow> (False, cs)
                 | d # ds \<Rightarrow> if d = 0x2D then (True, ds) else if d = 0x2B then (False, ds) else (False, cs));
                  es = takeWhile isDigit r
              in if es = [] then None
                 else Some ((if neg then - int (digits_value es) else int (digits_value es)),
                            dropWhile isDigit r))
           else Some (0, s)))"

definition json_fraction :: "jsstring \<Rightarrow> (rat \<times> jsstring) option" where
  "json_fraction s =
     (case s of
        [] \<Rightarrow> Some (0, s)
      | c # cs \<Rightarrow>
          (if c = 0x2E then
             (let fs = takeWhile isDigit cs
              in if fs = [] then None
                 else Some (of_nat (digits_value fs) / 10 ^ length fs, dropWhile isDigit cs))
           else Some (0, s)))"

definition json_number :: "jsstring \<Rightarrow> (rat \<times> jsstring) option" where
  "json_number s =
     (let (neg, s1) = (case s of [] \<Rightarrow> (False, s) | c # cs \<Rightarrow> if c = 0x2D then (True, cs) else (False, s));
          ds = takeWhile isDigit s1
      in if ds = [] \<or> (hd ds = 0x30 \<and> length ds > 1) then None
         else
           (case json_fraction (dropWhile isDigit s1) of
              None \<Rightarrow> None
            | Some (f, s2) \<Rightarrow>
                (case json_exponent s2 of
                   None \<Rightarrow> None
                 | Some (e, s3) \<Rightarrow>
                     (let m = of_nat (digits_value ds) + f;
                          v = (if e < 0 then m / 10 ^ nat (- e) else m * 10 ^ nat e)
                      in Some ((if neg then - v else v), s3)))))"

text \<open>
  One JSON value, with the rest of the input; the elements of an array after its opening
  bracket and the members of an object after its opening brace, each with what was read
  so far. A value always consumes input (\<open>json_value_length\<close> below), so the test on the
  lengths before the next element or member never fails; it is what makes the recursion
  terminate by its form.
\<close>

function json_value :: "jsstring \<Rightarrow> (json \<times> jsstring) option"
  and json_elements :: "jsstring \<Rightarrow> json list \<Rightarrow> (json \<times> jsstring) option"
  and json_members :: "jsstring \<Rightarrow> (jsstring \<times> json) list \<Rightarrow> (json \<times> jsstring) option"
where
  "json_value s =
     (case skip_ws s of
        [] \<Rightarrow> None
      | c # cs \<Rightarrow>
          (if c = 0x7B then
             (case skip_ws cs of
                [] \<Rightarrow> None
              | d # ds \<Rightarrow> if d = 0x7D then Some (JObj [], ds) else json_members (d # ds) [])
           else if c = 0x5B then
             (case skip_ws cs of
                [] \<Rightarrow> None
              | d # ds \<Rightarrow> if d = 0x5D then Some (JArr [], ds) else json_elements (d # ds) [])
           else if c = 0x22 then map_option (\<lambda>(v, r). (JStr v, r)) (json_chars cs)
           else if startsWith (c # cs) (S ''true'') then Some (JBool True, drop 4 (c # cs))
           else if startsWith (c # cs) (S ''false'') then Some (JBool False, drop 5 (c # cs))
           else if startsWith (c # cs) (S ''null'') then Some (JNull, drop 4 (c # cs))
           else map_option (\<lambda>(v, r). (JNum v, r)) (json_number (c # cs))))"
| "json_elements s acc =
     (case json_value s of
        None \<Rightarrow> None
      | Some (v, r) \<Rightarrow>
          (case skip_ws r of
             [] \<Rightarrow> None
           | d # ds \<Rightarrow>
               if d = 0x2C then
                 (if length ds < length s then json_elements ds (acc @ [v]) else None)
               else if d = 0x5D then Some (JArr (acc @ [v]), ds)
               else None))"
| "json_members s acc =
     (case skip_ws s of
        [] \<Rightarrow> None
      | c # cs \<Rightarrow>
          (if c = 0x22 then
             (case json_chars cs of
                None \<Rightarrow> None
              | Some (k, r) \<Rightarrow>
                  (case skip_ws r of
                     [] \<Rightarrow> None
                   | d # ds \<Rightarrow>
                       (if d = 0x3A then
                          (case json_value ds of
                             None \<Rightarrow> None
                           | Some (v, r2) \<Rightarrow>
                               (case skip_ws r2 of
                                  [] \<Rightarrow> None
                                | e # es \<Rightarrow>
                                    if e = 0x2C then
                                      (if length es < length s then json_members es (acc @ [(k, v)])
                                       else None)
                                    else if e = 0x7D then Some (JObj (acc @ [(k, v)]), es)
                                    else None))
                        else None)))
           else None))"
  by pat_completeness auto

termination
proof -
  have ws: "length cs < length s" if "skip_ws s = c # cs" for s c and cs :: jsstring
    using length_dropWhile_le [of isJsonWs s] that by (simp add: skip_ws_def)
  have chars: "length r < length s" if "json_chars s = Some (v, r)" for s v r
    using that
  proof (induction s arbitrary: v r rule: json_chars.induct)
    case 1
    then show ?case by simp
  next
    case (2 c cs)
    then show ?case
      by (fastforce split: if_splits list.splits option.splits)
  qed
  show ?thesis
  proof (relation "measures
      [\<lambda>x. case x of Inl s \<Rightarrow> length s | Inr (Inl (s, acc)) \<Rightarrow> length s | Inr (Inr (s, acc)) \<Rightarrow> length s,
       \<lambda>x. case x of Inl s \<Rightarrow> 0 | Inr y \<Rightarrow> 1]", goal_cases)
    case 1
    then show ?case by simp
  next
    case (2 s c cs d ds)
    then show ?case
      using ws [of s c cs] ws [of cs d ds] by simp
  next
    case (3 s c cs d ds)
    then show ?case
      using ws [of s c cs] ws [of cs d ds] by simp
  next
    case (4 s acc)
    then show ?case by simp
  next
    case (5 s acc x v r d ds)
    then show ?case by simp
  next
    case (6 s acc c cs x k r d ds)
    then show ?case
      using ws [of s c cs] chars [of cs k r] ws [of r d ds] by simp
  next
    case (7 s acc c cs x k r d ds y v r2 e es)
    then show ?case by simp
  qed
qed

declare json_value.simps [simp del] json_elements.simps [simp del] json_members.simps [simp del]

text \<open>
  \<^verbatim>\<open>JSON.parse(text)\<close>: \<open>Some\<close> the value, or \<open>None\<close> where JavaScript throws a
  SyntaxError.
\<close>

definition JSON_parse :: "jsstring \<Rightarrow> json option" where
  "JSON_parse s =
     (case json_value s of
        None \<Rightarrow> None
      | Some (v, r) \<Rightarrow> if skip_ws r = [] then Some v else None)"

section \<open>Reading parsed values\<close>

text \<open>
  \<^verbatim>\<open>v.name\<close> for the names the program reads (\<^verbatim>\<open>success\<close>, \<^verbatim>\<open>error\<close>, \<^verbatim>\<open>type\<close>,
  \<^verbatim>\<open>data\<close>, \<^verbatim>\<open>outputPath\<close>, \<^verbatim>\<open>duration\<close>), none of which a built-in prototype
  defines: reading a property of \<^verbatim>\<open>null\<close> throws a TypeError, an object gives the
  member of that name (the last one, where the text repeats a name) or \<^verbatim>\<open>undefined\<close>,
  every other value gives \<^verbatim>\<open>undefined\<close>. \<open>None\<close> is \<^verbatim>\<open>undefined\<close>.
\<close>

datatype js_error = TypeError

fun getProp :: "json \<Rightarrow> jsstring \<Rightarrow> js_error + json option" where
  "getProp JNull k = Inl TypeError"
| "getProp (JObj kvs) k = Inr (map_of (rev kvs) k)"
| "getProp v k = Inr None"

text \<open>
  ToBoolean. A number is falsy when it is zero as a double, that is when the literal
  rounds to zero: its magnitude is at most half the least positive double.
\<close>

fun truthy :: "json option \<Rightarrow> bool" where
  "truthy None = False"
| "truthy (Some JNull) = False"
| "truthy (Some (JBool b)) = b"
| "truthy (Some (JNum r)) = (\<bar>r\<bar> > 1 / 2 ^ 1075)"
| "truthy (Some (JStr s)) = (s \<noteq> [])"
| "truthy (Some (JArr vs)) = True"
| "truthy (Some (JObj kvs)) = True"

text \<open>
  Whether ToString throws a TypeError on a parsed value, as \<^verbatim>\<open>new Error(v)\<close> applies it.
  An object with a member named \<^verbatim>\<open>toString\<close> has no callable conversion left (the member
  hides \<^verbatim>\<open>Object.prototype.toString\<close>, and \<^verbatim>\<open>valueOf\<close> gives no primitive), so the
  conversion throws; every other object converts to \<^verbatim>\<open>[object Object]\<close>. An array joins the
  conversions of its elements, so it throws when one of them does. Strings, numbers,
  booleans and \<^verbatim>\<open>null\<close> always convert.
\<close>

fun toString_throws :: "json \<Rightarrow> bool" where
  "toString_throws (JObj kvs) = (S ''toString'' \<in> fst ` set kvs)"
| "toString_throws (JArr vs) = (\<exists>v \<in> set vs. toString_throws v)"
| "toString_throws v = False"

section \<open>The \<^verbatim>\<open>generate-tts\<close> handler of the main process\<close>

text \<open>
  How the promise of one generation settles: \<^verbatim>\<open>resolve(value)\<close>, or
  \<^verbatim>\<open>reject(new Error(arg))\<close> for an \<^verbatim>\<open>arg\<close> that converts to a string. The error's
  message is \<^verbatim>\<open>arg\<close> converted to a string, which for a string is the string itself.
\<close>

datatype settled = Resolve json | Reject json

definition generation_failed :: jsstring where
  "generation_failed = S ''TTS generation failed''"

text \<open>
  The filter of the close handler over the collected stderr text
  (\<^verbatim>\<open>stderr.split('\n').filter(...).join('\n').trim()\<close>).
\<close>

definition keep_line :: "jsstring \<Rightarrow> bool" where
  "keep_line line =
     (let trimmed = trim line
      in trimmed \<noteq> [] \<and>
         \<not> startsWith trimmed (S ''Fetching'') \<and>
         \<not> startsWith trimmed (S ''Downloading'') \<and>
         \<not> includes_str trimmed (S ''tokenizer'') \<and>
         \<not> includes_str trimmed (S ''FutureWarning'') \<and>
         \<not> includes_str trimmed (S ''UserWarning'') \<and>
         \<not> match_progress_bar trimmed)"

definition errorLines :: "jsstring \<Rightarrow> jsstring" where
  "errorLines stderr = trim (join_nl (filter keep_line (split_nl stderr)))"

text \<open>
  The catch branch of the close handler: the exit code decides. \<open>code\<close> is the
  argument of the \<^verbatim>\<open>close\<close> event, \<open>None\<close> for \<^verbatim>\<open>null\<close> (the process was killed by a
  signal); \<open>outputFile\<close> is the path computed before the spawn.
\<close>

definition close_catch :: "jsstring \<Rightarrow> int option \<Rightarrow> jsstring \<Rightarrow> settled" where
  "close_catch stderr code outputFile =
     (if code = Some 0 then
        Resolve (JObj [(S ''success'', JBool True), (S ''outputPath'', JStr outputFile)])
      else
        Reject (JStr (if errorLines stderr \<noteq> [] then errorLines stderr else generation_failed)))"

text \<open>
  \<^verbatim>\<open>ttsProcess.on('close', (code) => ...)\<close>. Everything in the try block that throws, the
  parse, a property read or the conversion of \<^verbatim>\<open>result.error\<close> to the error's message,
  lands in the catch branch.
\<close>

definition close_handler :: "jsstring \<Rightarrow> jsstring \<Rightarrow> int option \<Rightarrow> jsstring \<Rightarrow> settled" where
  "close_handler stdout stderr code outputFile =
     (case JSON_parse (trim stdout) of
        None \<Rightarrow> close_catch stderr code outputFile
      | Some result \<Rightarrow>
          (case getProp result (S ''success'') of
             Inl e \<Rightarrow> close_catch stderr code outputFile
           | Inr success \<Rightarrow>
               if truthy success then Resolve result
               else
                 (case getProp result (S ''error'') of
                    Inl e \<Rightarrow> close_catch stderr code outputFile
                  | Inr err \<Rightarrow>
                      (case err of
                         None \<Rightarrow> Reject (JStr generation_failed)
                       | Some v \<Rightarrow>
                           if truthy err then
                             (if toString_throws v then close_catch stderr code outputFile
                              else Reject v)
                           else Reject (JStr generation_failed)))))"

text \<open>
  \<^verbatim>\<open>ttsProcess.stderr.on('data', ...)\<close>. The state is the \<^verbatim>\<open>stderr\<close> variable and the
  \<^verbatim>\<open>tts-progress\<close> messages sent to the window so far, oldest first (each the value of
  \<^verbatim>\<open>parsed.data\<close>). \<open>mainWindow\<close> tells whether the window variable is set.
\<close>

record stderr_state =
  stderr_buf :: jsstring
  progress_sent :: "json option list"

definition stderr_line :: "bool \<Rightarrow> stderr_state \<Rightarrow> jsstring \<Rightarrow> stderr_state" where
  "stderr_line mainWindow st line =
     (if trim line \<noteq> [] then
        (case JSON_parse line of
           None \<Rightarrow> st\<lparr>stderr_buf := stderr_buf st @ line @ [0x0A]\<rparr>
         | Some parsed \<Rightarrow>
             (case getProp parsed (S ''type'') of
                Inl e \<Rightarrow> st\<lparr>stderr_buf := stderr_buf st @ line @ [0x0A]\<rparr>
              | Inr ty \<Rightarrow>
                  if ty = Some (JStr (S ''progress'')) \<and> mainWindow then
                    (case getProp parsed (S ''data'') of
                       Inl e \<Rightarrow> st\<lparr>stderr_buf := stderr_buf st @ line @ [0x0A]\<rparr>
                     | Inr d \<Rightarrow> st\<lparr>progress_sent := progress_sent st @ [d]\<rparr>)
                  else st))
      else st)"

definition stderr_data :: "bool \<Rightarrow> stderr_state \<Rightarrow> jsstring \<Rightarrow> stderr_state" where
  "stderr_data mainWindow st data = foldl (stderr_line mainWindow) st (split_nl data)"

text \<open>
  What the renderer reads from a resolved result: \<^verbatim>\<open>result.outputPath\<close> and
  \<^verbatim>\<open>result.duration\<close>; a rejected promise has no result.
\<close>

definition result_field :: "jsstring \<Rightarrow> settled \<Rightarrow> json option" where
  "result_field k r =
     (case r of
        Resolve v \<Rightarrow> (case getProp v k of Inl e \<Rightarrow> None | Inr x \<Rightarrow> x)
      | Reject e \<Rightarrow> None)"

definition result_outputPath :: "settled \<Rightarrow> json option" where
  "result_outputPath r = result_field (S ''outputPath'') r"

definition result_duration :: "settled \<Rightarrow> json option" where
  "result_duration r = result_field (S ''duration'') r"

section \<open>The history handlers of the main process\<close>

text \<open>
  A stored history item: the fields the caller passed (\<^verbatim>\<open>...item\<close>), then \<^verbatim>\<open>id\<close> and
  \<^verbatim>\<open>timestamp\<close>, which the handler sets. The store's defaults define \<^verbatim>\<open>historyItems\<close> as
  an array, and an array is truthy, so \<^verbatim>\<open>store.get('historyItems') || []\<close> is the
  stored array.
\<close>

record 'a history_item =
  item_fields :: 'a
  item_id :: jsstring
  item_timestamp :: jsstring

text \<open>
  \<^verbatim>\<open>add-history-item\<close>: \<open>newId\<close> and \<open>now\<close> are the id and the timestamp the handler
  computes from the clock and the random generator. The result is the returned item and
  the array written back to the store.
\<close>

definition add_history_item ::
  "'a \<Rightarrow> jsstring \<Rightarrow> jsstring \<Rightarrow> 'a history_item list \<Rightarrow> 'a history_item \<times> 'a history_item list"
where
  "add_history_item item newId now historyItems =
     (let newItem = \<lparr>item_fields = item, item_id = newId, item_timestamp = now\<rparr>;
          history = newItem # historyItems;
          history' = (if length history > 100 then butlast history else history)
      in (newItem, history'))"

text \<open>\<^verbatim>\<open>get-history\<close>\<close>

definition get_history :: "'a history_item list \<Rightarrow> 'a history_item list" where
  "get_history historyItems = historyItems"

text \<open>\<^verbatim>\<open>delete-history-item\<close>: the returned value and the array written back.\<close>

definition delete_history_item ::
  "jsstring \<Rightarrow> 'a history_item list \<Rightarrow> bool \<times> 'a history_item list"
where
  "delete_history_item i historyItems = (True, filter (\<lambda>x. item_id x \<noteq> i) historyItems)"

text \<open>\<^verbatim>\<open>clear-history\<close>\<close>

definition clear_history :: "'a history_item list \<Rightarrow> bool \<times> 'a history_item list" where
  "clear_history historyItems = (True, [])"

text \<open>A run of appends, oldest first, each with its fields, id and timestamp.\<close>

definition add_all ::
  "('a \<times> jsstring \<times> jsstring) list \<Rightarrow> 'a history_item list \<Rightarrow> 'a history_item list"
where
  "add_all xs historyItems =
     foldl (\<lambda>h (item, newId, now). snd (add_history_item item newId now h)) historyItems xs"

definition stored :: "'a \<times> jsstring \<times> jsstring \<Rightarrow> 'a history_item" where
  "stored x = (case x of (item, newId, now) \<Rightarrow>
     \<lparr>item_fields = item, item_id = newId, item_timestamp = now\<rparr>)"

section \<open>The renderer: \<^verbatim>\<open>EcloApp\<close>\<close>

record capabilities =
  voiceCloning :: bool
  presetVoices :: bool
  speedControl :: bool
  styleInstruction :: bool
  languageSelection :: bool
  referenceText :: bool

datatype voice_type = Preset | Custom

record voice =
  voice_type :: voice_type
  voice_id :: jsstring
  voice_name :: jsstring
  voice_path :: jsstring

record preset_voice =
  preset_id :: jsstring
  preset_refText :: jsstring

text \<open>
  The fields of the application object and the values of the form controls that
  \<^verbatim>\<open>generateTTS\<close> and \<^verbatim>\<open>updateGenerateButtonState\<close> read. \<open>None\<close> is \<^verbatim>\<open>null\<close>.
\<close>

record EcloApp =
  selectedVoice :: "voice option"
  currentModelCapabilities :: "capabilities option"
  preset_voices :: "preset_voice list"
  tts_text :: jsstring
  tts_language :: jsstring
  tts_speed :: jsstring
  tts_style :: jsstring
  custom_ref_text :: jsstring

text \<open>The argument of \<^verbatim>\<open>window.ecloAPI.generateTTS\<close>; the speed is the slider's text.\<close>

record tts_options =
  opt_text :: jsstring
  opt_language :: jsstring
  opt_speed :: jsstring
  opt_voiceSamplePath :: jsstring
  opt_referenceText :: "jsstring option"
  opt_instructText :: "jsstring option"

text \<open>
  What the program takes from its platform: the interpreter and script paths, the
  \<^verbatim>\<open>get-voice-sample-path\<close> handler, and \<^verbatim>\<open>String(parseFloat(v) || 1.0)\<close> on the
  slider's text.
\<close>

record platform =
  pythonPath :: jsstring
  scriptPath :: jsstring
  getVoiceSamplePath :: "jsstring \<Rightarrow> jsstring"
  speedString :: "jsstring \<Rightarrow> jsstring"

definition getPresetReferenceText :: "EcloApp \<Rightarrow> jsstring \<Rightarrow> jsstring option" where
  "getPresetReferenceText app voiceId =
     (case find (\<lambda>v. preset_id v = voiceId) (preset_voices app) of
        None \<Rightarrow> None
      | Some v \<Rightarrow> Some (preset_refText v))"

text \<open>\<^verbatim>\<open>s || null\<close> on a string.\<close>

definition or_null :: "jsstring \<Rightarrow> jsstring option" where
  "or_null s = (if s = [] then None else Some s)"

text \<open>
  \<^verbatim>\<open>EcloApp.generateTTS\<close> up to the call of \<^verbatim>\<open>window.ecloAPI.generateTTS\<close>: \<open>Inl\<close> the
  message of the alert after which the method returns, \<open>Inr\<close> the options it sends to
  the main process.
\<close>

definition generateTTS :: "platform \<Rightarrow> EcloApp \<Rightarrow> jsstring + tts_options" where
  "generateTTS pf app =
     (let text = trim (tts_text app)
      in if text = [] then Inl (S ''Please enter text to convert'')
         else
           (case selectedVoice app of
              None \<Rightarrow> Inl (S ''Please select a voice'')
            | Some v \<Rightarrow>
                Inr \<lparr>opt_text = text,
                     opt_language = tts_language app,
                     opt_speed = tts_speed app,
                     opt_voiceSamplePath =
                       (if voice_type v = Preset then getVoiceSamplePath pf (voice_id v)
                        else voice_path v),
                     opt_referenceText =
                       (if voice_type v = Preset then getPresetReferenceText app (voice_id v)
                        else or_null (trim (custom_ref_text app))),
                     opt_instructText = or_null (trim (tts_style app))\<rparr>))"

text \<open>
  The \<^verbatim>\<open>generate-tts\<close> handler up to \<^verbatim>\<open>spawn(pythonPath, args)\<close>: the command and its
  arguments. \<open>modelId\<close> and \<open>outputFile\<close> come from the settings store and the clock.
\<close>

definition generate_tts_spawn ::
  "platform \<Rightarrow> jsstring \<Rightarrow> jsstring \<Rightarrow> tts_options \<Rightarrow> jsstring \<times> jsstring list"
where
  "generate_tts_spawn pf modelId outputFile options =
     (pythonPath pf,
      [scriptPath pf,
       S ''--action'', S ''generate'',
       S ''--text'', opt_text options,
       S ''--language'', opt_language options,
       S ''--model'', modelId,
       S ''--output'', outputFile,
       S ''--speed'', speedString pf (opt_speed options)]
      @ (if opt_voiceSamplePath options \<noteq> [] then [S ''--ref-audio'', opt_voiceSamplePath options] else [])
      @ (case opt_referenceText options of
           None \<Rightarrow> []
         | Some t \<Rightarrow> if t \<noteq> [] then [S ''--ref-text'', t] else [])
      @ (case opt_instructText options of
           None \<Rightarrow> []
         | Some t \<Rightarrow> if t \<noteq> [] then [S ''--instruct'', t] else []))"

text \<open>
  The processes one click on the generate button spawns: none when \<^verbatim>\<open>generateTTS\<close>
  returns after an alert, else the one of the \<^verbatim>\<open>generate-tts\<close> handler.
\<close>

definition spawned ::
  "platform \<Rightarrow> jsstring \<Rightarrow> jsstring \<Rightarrow> EcloApp \<Rightarrow> (jsstring \<times> jsstring list) list"
where
  "spawned pf modelId outputFile app =
     (case generateTTS pf app of
        Inl alert \<Rightarrow> []
      | Inr options \<Rightarrow> [generate_tts_spawn pf modelId outputFile options])"

text \<open>
  \<^verbatim>\<open>updateGenerateButtonState\<close>: the value it gives the button's \<^verbatim>\<open>disabled\<close> property.
\<close>

definition updateGenerateButtonState :: "EcloApp \<Rightarrow> bool" where
  "updateGenerateButtonState app =
     (let requiresVoice =
            (case currentModelCapabilities app of
               None \<Rightarrow> False
             | Some caps \<Rightarrow> voiceCloning caps \<or> presetVoices caps);
          hasVoice = (selectedVoice app \<noteq> None);
          hasText = (length (trim (tts_text app)) > 0)
      in if \<not> requiresVoice then \<not> hasText else \<not> (hasVoice \<and> hasText))"

section \<open>Notions the properties are stated with\<close>

text \<open>
  The lines that are discarded when the stderr text becomes the failure message, stated
  on the trimmed line without the handler's own tests: the line is empty, or begins with
  \<^verbatim>\<open>Fetching\<close> or \<^verbatim>\<open>Downloading\<close>, or contains \<^verbatim>\<open>tokenizer\<close>, \<^verbatim>\<open>FutureWarning\<close> or
  \<^verbatim>\<open>UserWarning\<close> somewhere, or is a progress bar: its first \<open>n\<close> characters, for some
  \<open>n\<close> of at least one, are all decimal digits and the next two are a percent sign and
  a pipe.
\<close>

definition progress_bar_rendering :: "jsstring \<Rightarrow> bool" where
  "progress_bar_rendering t =
     (\<exists>n \<in> {1..length t}.
        set (take n t) \<subseteq> set (S ''0123456789'') \<and> take 2 (drop n t) = [0x25, 0x7C])"

definition discarded_line :: "jsstring \<Rightarrow> bool" where
  "discarded_line line =
     (let t = trim line
      in t = [] \<or>
         prefix (S ''Fetching'') t \<or> prefix (S ''Downloading'') t \<or>
         sublist (S ''tokenizer'') t \<or>
         sublist (S ''FutureWarning'') t \<or> sublist (S ''UserWarning'') t \<or>
         progress_bar_rendering t)"

text \<open>
  A stderr text with a line of every discarded kind (two of them indented), a blank line,
  and four lines that are kept: \<^verbatim>\<open>Fetching\<close> inside a line, a DeprecationWarning, a
  percent sign and pipe without digits, and an error followed by spaces.
\<close>

definition noisy_stderr :: jsstring where
  "noisy_stderr =
     S ''  Fetching 3 files: 100%'' @ [0x0A]
     @ S ''Downloading model.safetensors'' @ [0x0A]
     @ S ''   '' @ [0x0A]
     @ S ''Now Fetching weights'' @ [0x0A]
     @ S ''Special tokens were added to the tokenizer'' @ [0x0A]
     @ S ''lib.py:3: FutureWarning: x'' @ [0x0A]
     @ S ''lib.py:5: DeprecationWarning: z'' @ [0x0A]
     @ S ''lib.py:9: UserWarning: y'' @ [0x0A]
     @ S '' 45%|##'' @ [0x0A]
     @ S ''%|'' @ [0x0A]
     @ S ''RuntimeError: out of memory  '' @ [0x0A]"

text \<open>
  A stderr line that is a progress event: not blank, JSON, and its \<^verbatim>\<open>type\<close> is the
  string \<^verbatim>\<open>progress\<close>; \<open>progress_data\<close> is its \<^verbatim>\<open>data\<close> member. A diagnostic line is
  not blank and not JSON.
\<close>

definition is_progress_line :: "jsstring \<Rightarrow> bool" where
  "is_progress_line line =
     (trim line \<noteq> [] \<and>
      (case JSON_parse line of
         None \<Rightarrow> False
       | Some parsed \<Rightarrow> getProp parsed (S ''type'') = Inr (Some (JStr (S ''progress'')))))"

definition progress_data :: "jsstring \<Rightarrow> json option" where
  "progress_data line =
     (case JSON_parse line of
        None \<Rightarrow> None
      | Some parsed \<Rightarrow> (case getProp parsed (S ''data'') of Inl e \<Rightarrow> None | Inr d \<Rightarrow> d))"

definition is_diagnostic_line :: "jsstring \<Rightarrow> bool" where
  "is_diagnostic_line line = (trim line \<noteq> [] \<and> JSON_parse line = None)"

text \<open>A stderr line that is the JSON text \<^verbatim>\<open>null\<close>.\<close>

definition is_null_line :: "jsstring \<Rightarrow> bool" where
  "is_null_line line = (trim line \<noteq> [] \<and> JSON_parse line = Some JNull)"

definition with_newline :: "jsstring \<Rightarrow> jsstring" where
  "with_newline line = line @ [0x0A]"

text \<open>One hundred and one appends with the ids 0 to 100, oldest first.\<close>

definition example_entries :: "(unit \<times> jsstring \<times> jsstring) list" where
  "example_entries = map (\<lambda>n. ((), [of_nat n], [])) [0..<101]"

text \<open>
  The capabilities \<^verbatim>\<open>get-available-models\<close> lists for \<^verbatim>\<open>mlx-community/Kokoro-82M-MLX\<close>,
  and the application after that model was selected and the text \<^verbatim>\<open>Hello\<close> typed:
  \<^verbatim>\<open>updateUIBasedOnCapabilities\<close> has hidden the voice selector and cleared
  \<^verbatim>\<open>selectedVoice\<close>.
\<close>

definition kokoro_capabilities :: capabilities where
  "kokoro_capabilities =
     \<lparr>voiceCloning = False, presetVoices = False, speedControl = True,
      styleInstruction = False, languageSelection = True, referenceText = False\<rparr>"

definition kokoro_app :: EcloApp where
  "kokoro_app =
     \<lparr>selectedVoice = None,
      currentModelCapabilities = Some kokoro_capabilities,
      preset_voices = [],
      tts_text = S ''Hello'',
      tts_language = S ''en'',
      tts_speed = S ''1'',
      tts_style = [],
      custom_ref_text = []\<rparr>"

text \<open>A platform and an application whose text field holds only spaces.\<close>

definition example_platform :: platform where
  "example_platform =
     \<lparr>pythonPath = S ''python3'',
      scriptPath = S ''/app/src/python/tts_service.py'',
      getVoiceSamplePath = (\<lambda>voiceId. S ''/app/assets/voices/'' @ voiceId @ S ''.wav''),
      speedString = (\<lambda>v. v)\<rparr>"

definition blank_text_app :: EcloApp where
  "blank_text_app =
     \<lparr>selectedVoice =
        Some \<lparr>voice_type = Custom, voice_id = S ''custom'', voice_name = S ''me.wav'',
              voice_path = S ''/home/me.wav''\<rparr>,
      currentModelCapabilities = None,
      preset_voices = [],
      tts_text = S ''   '',
      tts_language = S ''en'',
      tts_speed = S ''1'',
      tts_style = [],
      custom_ref_text = []\<rparr>"

section \<open>The parser consumes its input\<close>

lemma skip_ws_length: "length (skip_ws s) \<le> length s"
  by (simp add: skip_ws_def length_dropWhile_le)

lemma skip_ws_Cons: "skip_ws s = c # cs \<Longrightarrow> length cs < length s"
  using skip_ws_length [of s] by simp

lemma json_chars_length: "json_chars s = Some (v, r) \<Longrightarrow> length r < length s"
proof (induction s arbitrary: v r rule: json_chars.induct)
  case 1
  then show ?case by simp
next
  case (2 c cs)
  then show ?case
    by (fastforce split: if_splits list.splits option.splits)
qed


lemma dropWhile_shorter: "takeWhile P xs \<noteq> [] \<Longrightarrow> length (dropWhile P xs) < length xs"
  by (cases xs) (auto simp add: less_Suc_eq_le length_dropWhile_le split: if_splits)

lemma json_fraction_length: "json_fraction s = Some (f, r) \<Longrightarrow> length r \<le> length s"
  by (auto simp add: json_fraction_def Let_def length_dropWhile_le le_SucI split: list.splits if_splits)

lemma json_exponent_length: "json_exponent s = Some (e, r) \<Longrightarrow> length r \<le> length s"
  by (auto simp add: json_exponent_def Let_def le_SucI
      intro: order_trans [OF length_dropWhile_le]
      split: list.splits if_splits prod.splits)

lemma json_number_length:
  assumes "json_number s = Some (v, r)"
  shows "length r < length s"
proof -
  obtain neg s1 where s1: "(case s of [] \<Rightarrow> (False, s) | c # cs \<Rightarrow> if c = 0x2D then (True, cs) else (False, s)) = (neg, s1)"
    by (cases "(case s of [] \<Rightarrow> (False, s) | c # cs \<Rightarrow> if c = 0x2D then (True, cs) else (False, s))") auto
  then have l1: "length s1 \<le> length s"
    by (auto split: list.splits if_splits)
  from assms s1 have ds: "takeWhile isDigit s1 \<noteq> []"
    by (auto simp add: json_number_def Let_def split: if_splits)
  from assms s1 ds obtain f s2 e where
    f: "json_fraction (dropWhile isDigit s1) = Some (f, s2)" and
    e: "json_exponent s2 = Some (e, r)"
    by (auto simp add: json_number_def Let_def split: if_splits option.splits)
  from dropWhile_shorter [OF ds] json_fraction_length [OF f] json_exponent_length [OF e] l1
  show ?thesis by simp
qed

lemma json_value_length:
  "json_value s = Some (v, r) \<Longrightarrow> length r < length s"
  "json_elements s acc = Some (v, r) \<Longrightarrow> length r < length s"
  "json_members s macc = Some (v, r) \<Longrightarrow> length r < length s"
proof (induction s and s acc and s macc arbitrary: v r and v r and v r
    rule: json_value_json_elements_json_members.induct)
  case (1 s)
  note a = \<open>json_value s = Some (v, r)\<close>
  show ?case
  proof (cases "skip_ws s")
    case Nil
    with a show ?thesis by (simp add: json_value.simps)
  next
    case (Cons c cs)
    note sc = Cons
    note cs = skip_ws_Cons [OF Cons]
    consider (obj) "c = 0x7B" | (arr) "c \<noteq> 0x7B" "c = 0x5B" | (str) "c \<noteq> 0x7B" "c \<noteq> 0x5B" "c = 0x22"
      | (other) "c \<noteq> 0x7B" "c \<noteq> 0x5B" "c \<noteq> 0x22"
      by blast
    then show ?thesis
    proof cases
      case obj
      show ?thesis
      proof (cases "skip_ws cs")
        case Nil
        with a sc obj show ?thesis by (simp add: json_value.simps)
      next
        case (Cons d ds)
        note ds = skip_ws_Cons [OF Cons]
        show ?thesis
        proof (cases "d = 0x7D")
          case True
          with a sc obj Cons have "r = ds" by (simp add: json_value.simps)
          with ds cs show ?thesis by simp
        next
          case False
          with a sc obj Cons have "json_members (d # ds) [] = Some (v, r)"
            by (simp add: json_value.simps)
          from "1.IH"(1) [OF sc obj Cons False this] ds cs show ?thesis by simp
        qed
      qed
    next
      case arr
      show ?thesis
      proof (cases "skip_ws cs")
        case Nil
        with a sc arr show ?thesis by (simp add: json_value.simps)
      next
        case (Cons d ds)
        note ds = skip_ws_Cons [OF Cons]
        show ?thesis
        proof (cases "d = 0x5D")
          case True
          with a sc arr Cons have "r = ds" by (simp add: json_value.simps)
          with ds cs show ?thesis by simp
        next
          case False
          with a sc arr Cons have "json_elements (d # ds) [] = Some (v, r)"
            by (simp add: json_value.simps)
          from "1.IH"(2) [OF sc arr Cons False this] ds cs show ?thesis by simp
        qed
      qed
    next
      case str
      with a sc obtain x where "json_chars cs = Some (x, r)"
        by (auto simp add: json_value.simps)
      from json_chars_length [OF this] cs show ?thesis by simp
    next
      case other
      with a sc have
        "(startsWith (c # cs) (S ''true'') \<and> r = drop 4 (c # cs))
         \<or> (startsWith (c # cs) (S ''false'') \<and> r = drop 5 (c # cs))
         \<or> (startsWith (c # cs) (S ''null'') \<and> r = drop 4 (c # cs))
         \<or> (\<exists>x. json_number (c # cs) = Some (x, r))"
        by (auto simp add: json_value.simps split: if_splits)
      then show ?thesis
        using cs json_number_length by fastforce
    qed
  qed
next
  case (2 s acc)
  note a = \<open>json_elements s acc = Some (v, r)\<close>
  from a obtain x r1 where v1: "json_value s = Some (x, r1)"
    by (auto simp add: json_elements.simps split: option.splits)
  have l1: "length r1 < length s"
    by (rule "2.IH"(1) [OF v1])
  from a v1 obtain d ds where sk: "skip_ws r1 = d # ds"
    by (cases "skip_ws r1") (auto simp add: json_elements.simps)
  note ds = skip_ws_Cons [OF sk]
  show ?case
  proof (cases "d = 0x2C")
    case True
    with a v1 sk have g: "length ds < length s" and n: "json_elements ds (acc @ [x]) = Some (v, r)"
      by (auto simp add: json_elements.simps split: if_splits)
    from "2.IH"(2) [OF v1 refl sk True g n] g show ?thesis by simp
  next
    case False
    with a v1 sk have "r = ds"
      by (auto simp add: json_elements.simps split: if_splits)
    with ds l1 show ?thesis by simp
  qed
next
  case (3 s macc)
  note a = \<open>json_members s macc = Some (v, r)\<close>
  from a obtain c cs where sc: "skip_ws s = c # cs"
    by (cases "skip_ws s") (auto simp add: json_members.simps)
  note cs = skip_ws_Cons [OF sc]
  from a sc have q: "c = 0x22"
    by (auto simp add: json_members.simps split: if_splits)
  from a sc q obtain k r1 where ch: "json_chars cs = Some (k, r1)"
    by (cases "json_chars cs") (auto simp add: json_members.simps)
  note r1 = json_chars_length [OF ch]
  from a sc q ch obtain d ds where sk: "skip_ws r1 = d # ds"
    by (cases "skip_ws r1") (auto simp add: json_members.simps)
  note ds = skip_ws_Cons [OF sk]
  from a sc q ch sk have col: "d = 0x3A"
    by (auto simp add: json_members.simps split: if_splits)
  from a sc q ch sk col obtain x r2 where v1: "json_value ds = Some (x, r2)"
    by (cases "json_value ds") (auto simp add: json_members.simps)
  have l2: "length r2 < length ds"
    by (rule "3.IH"(1) [OF sc q ch refl sk col v1])
  from a sc q ch sk col v1 obtain e es where se: "skip_ws r2 = e # es"
    by (cases "skip_ws r2") (auto simp add: json_members.simps)
  note es = skip_ws_Cons [OF se]
  show ?case
  proof (cases "e = 0x2C")
    case True
    with a sc q ch sk col v1 se
    have g: "length es < length s" and n: "json_members es (macc @ [(k, x)]) = Some (v, r)"
      by (auto simp add: json_members.simps split: if_splits)
    from "3.IH"(2) [OF sc q ch refl sk col v1 refl se True g n] g show ?thesis by simp
  next
    case False
    with a sc q ch sk col v1 se have "r = es"
      by (auto simp add: json_members.simps split: if_splits)
    with es l2 ds r1 cs show ?thesis by simp
  qed
qed


text \<open>
  So the tests on the lengths in \<open>json_elements\<close> and \<open>json_members\<close> always succeed:
  the functions satisfy the equations of the plain recursive descent.
\<close>

lemma json_elements_descent:
  "json_elements s acc =
     (case json_value s of
        None \<Rightarrow> None
      | Some (v, r) \<Rightarrow>
          (case skip_ws r of
             [] \<Rightarrow> None
           | d # ds \<Rightarrow>
               if d = 0x2C then json_elements ds (acc @ [v])
               else if d = 0x5D then Some (JArr (acc @ [v]), ds)
               else None))"
proof (cases "json_value s")
  case None
  then show ?thesis by (simp add: json_elements.simps)
next
  case (Some p)
  obtain v r where p: "p = (v, r)" by (cases p)
  from Some p have l: "length r < length s"
    using json_value_length(1) by simp
  show ?thesis
  proof (cases "skip_ws r")
    case Nil
    with Some p show ?thesis by (simp add: json_elements.simps [of s])
  next
    case (Cons d ds)
    from skip_ws_Cons [OF Cons] l have "length ds < length s" by simp
    with Some p Cons show ?thesis by (simp add: json_elements.simps [of s])
  qed
qed

lemma json_members_descent:
  "json_members s acc =
     (case skip_ws s of
        [] \<Rightarrow> None
      | c # cs \<Rightarrow>
          (if c = 0x22 then
             (case json_chars cs of
                None \<Rightarrow> None
              | Some (k, r) \<Rightarrow>
                  (case skip_ws r of
                     [] \<Rightarrow> None
                   | d # ds \<Rightarrow>
                       (if d = 0x3A then
                          (case json_value ds of
                             None \<Rightarrow> None
                           | Some (v, r2) \<Rightarrow>
                               (case skip_ws r2 of
                                  [] \<Rightarrow> None
                                | e # es \<Rightarrow>
                                    if e = 0x2C then json_members es (acc @ [(k, v)])
                                    else if e = 0x7D then Some (JObj (acc @ [(k, v)]), es)
                                    else None))
                        else None)))
           else None))"
proof -
  have g: "length es < length s"
    if "skip_ws s = c # cs" "json_chars cs = Some (k, r)" "skip_ws r = d # ds"
      "json_value ds = Some (v, r2)" "skip_ws r2 = e # es"
    for c cs k r d ds v r2 e es
    using skip_ws_Cons [OF that(1)] json_chars_length [OF that(2)] skip_ws_Cons [OF that(3)]
      json_value_length(1) [OF that(4)] skip_ws_Cons [OF that(5)]
    by simp
  show ?thesis
    by (subst json_members.simps) (auto simp add: g split: list.splits option.splits)
qed

section \<open>Outcome resolution\<close>

lemma close_handler_truthy:
  assumes "JSON_parse (trim stdout) = Some result"
    and "getProp result (S ''success'') = Inr flag"
    and "truthy flag"
  shows "close_handler stdout stderr code outputFile = Resolve result"
  using assms by (simp add: close_handler_def)

lemma close_handler_unparsed:
  assumes "JSON_parse (trim stdout) = None"
  shows "close_handler stdout stderr code outputFile = close_catch stderr code outputFile"
  using assms by (simp add: close_handler_def)

text \<open>
  Claim C1. When the trimmed stdout text parses as JSON and the value's \<^verbatim>\<open>success\<close>
  member is truthy, the promise resolves with that very value, whatever the exit code:
  the output path and the duration the renderer reads are the value's own members.
\<close>

theorem json_success_precedes_exit_code:
  assumes "JSON_parse (trim stdout) = Some result"
    and "getProp result (S ''success'') = Inr flag"
    and "truthy flag"
  shows "close_handler stdout stderr code outputFile = Resolve result
       \<and> result_outputPath (close_handler stdout stderr code outputFile) = result_outputPath (Resolve result)
       \<and> result_duration (close_handler stdout stderr code outputFile) = result_duration (Resolve result)"
  using close_handler_truthy [OF assms] by simp

text \<open>
  The example of the specification, at every exit code: the path is \<^verbatim>\<open>/tmp/a.wav\<close> and
  the duration 3.2.
\<close>

theorem json_success_precedes_exit_code_witness:
  \<open>\<forall>code.
     close_handler (S ''{"success":true,"outputPath":"/tmp/a.wav","duration":3.2}'') []
       code (S ''/music/eclo_1700000000000.wav'')
     = Resolve (JObj [(S ''success'', JBool True),
                      (S ''outputPath'', JStr (S ''/tmp/a.wav'')),
                      (S ''duration'', JNum (16 / 5))])
    \<and> result_outputPath
        (close_handler (S ''{"success":true,"outputPath":"/tmp/a.wav","duration":3.2}'') []
           code (S ''/music/eclo_1700000000000.wav''))
       = Some (JStr (S ''/tmp/a.wav''))
    \<and> result_duration
        (close_handler (S ''{"success":true,"outputPath":"/tmp/a.wav","duration":3.2}'') []
           code (S ''/music/eclo_1700000000000.wav''))
       = Some (JNum (16 / 5))\<close>
proof -
  let ?v = "JObj [(S ''success'', JBool True),
                  (S ''outputPath'', JStr (S ''/tmp/a.wav'')),
                  (S ''duration'', JNum (16 / 5))]"
  have p: \<open>JSON_parse (trim (S ''{"success":true,"outputPath":"/tmp/a.wav","duration":3.2}'')) = Some ?v\<close>
    by code_simp
  have g: "getProp ?v (S ''success'') = Inr (Some (JBool True))"
    by code_simp
  have t: "truthy (Some (JBool True))"
    by simp
  have o: "result_outputPath (Resolve ?v) = Some (JStr (S ''/tmp/a.wav''))"
    by code_simp
  have d: "result_duration (Resolve ?v) = Some (JNum (16 / 5))"
    by code_simp
  show ?thesis
    using json_success_precedes_exit_code [OF p g t] o d by simp
qed

lemma S_success_neq_outputPath: "S ''success'' \<noteq> S ''outputPath''"
  by (simp add: S_def)

lemma S_duration_neq: "S ''duration'' \<noteq> S ''outputPath''" "S ''duration'' \<noteq> S ''success''"
  by (simp_all add: S_def)

lemma close_catch_exit_zero:
  "close_catch stderr (Some 0) outputFile =
     Resolve (JObj [(S ''success'', JBool True), (S ''outputPath'', JStr outputFile)])"
  by (simp add: close_catch_def)

lemma fallback_result_outputPath:
  "result_outputPath (Resolve (JObj [(S ''success'', JBool True), (S ''outputPath'', JStr outputFile)]))
     = Some (JStr outputFile)"
  by (simp add: result_outputPath_def result_field_def)

lemma fallback_result_duration:
  "result_duration (Resolve (JObj [(S ''success'', JBool True), (S ''outputPath'', JStr outputFile)]))
     = None"
  using S_duration_neq by (simp add: result_duration_def result_field_def)

text \<open>
  Claim C2, as amended. When the trimmed stdout text parses as JSON with a truthy
  \<^verbatim>\<open>success\<close> member and the value has no \<^verbatim>\<open>outputPath\<close> member, the promise resolves
  with that value as it is: the result carries no output path, and the path computed
  before the spawn is not put in its place.
\<close>

theorem json_success_without_path:
  assumes "JSON_parse (trim stdout) = Some result"
    and "getProp result (S ''success'') = Inr flag"
    and "truthy flag"
    and "getProp result (S ''outputPath'') = Inr None"
  shows "close_handler stdout stderr code outputFile = Resolve result
       \<and> result_outputPath (close_handler stdout stderr code outputFile) = None"
  using close_handler_truthy [OF assms(1-3)] assms(4)
  by (simp add: result_outputPath_def result_field_def)

theorem json_success_without_path_witness:
  \<open>close_handler (S ''{"success":true,"duration":1.5}'') [] (Some 0) (S ''/music/eclo_1700000000000.wav'')
     = Resolve (JObj [(S ''success'', JBool True), (S ''duration'', JNum (3 / 2))])
   \<and> result_outputPath
        (close_handler (S ''{"success":true,"duration":1.5}'') [] (Some 0) (S ''/music/eclo_1700000000000.wav''))
      = None\<close>
proof -
  let ?v = "JObj [(S ''success'', JBool True), (S ''duration'', JNum (3 / 2))]"
  have p: \<open>JSON_parse (trim (S ''{"success":true,"duration":1.5}'')) = Some ?v\<close>
    by code_simp
  have g: "getProp ?v (S ''success'') = Inr (Some (JBool True))"
    by code_simp
  have t: "truthy (Some (JBool True))"
    by simp
  have n: "getProp ?v (S ''outputPath'') = Inr None"
    by code_simp
  show ?thesis
    by (rule json_success_without_path [OF p g t n])
qed

text \<open>
  Against claim C2 as stated: on the stdout text \<^verbatim>\<open>{"success":true}\<close> the result has no
  output path, where the claim puts the computed path.
\<close>

theorem json_success_without_path_counterexample:
  \<open>close_handler (S ''{"success":true}'') [] (Some 0) (S ''/music/eclo_1700000000000.wav'')
     = Resolve (JObj [(S ''success'', JBool True)])
   \<and> result_outputPath
        (close_handler (S ''{"success":true}'') [] (Some 0) (S ''/music/eclo_1700000000000.wav''))
      = None\<close>
  by code_simp

text \<open>
  Claim C3. When the trimmed stdout text does not parse as JSON and the exit code is 0,
  the promise resolves with a result that carries the computed output path and no
  duration.
\<close>

theorem unparsed_stdout_exit_zero:
  assumes "JSON_parse (trim stdout) = None"
  shows "close_handler stdout stderr (Some 0) outputFile
           = Resolve (JObj [(S ''success'', JBool True), (S ''outputPath'', JStr outputFile)])
       \<and> result_outputPath (close_handler stdout stderr (Some 0) outputFile) = Some (JStr outputFile)
       \<and> result_duration (close_handler stdout stderr (Some 0) outputFile) = None"
  using close_handler_unparsed [OF assms]
  by (simp add: close_catch_exit_zero fallback_result_outputPath fallback_result_duration)

theorem unparsed_stdout_exit_zero_witness:
  "close_handler [] [] (Some 0) (S ''/music/eclo_1700000000000.wav'')
     = Resolve (JObj [(S ''success'', JBool True),
                      (S ''outputPath'', JStr (S ''/music/eclo_1700000000000.wav''))])
   \<and> result_outputPath (close_handler [] [] (Some 0) (S ''/music/eclo_1700000000000.wav''))
      = Some (JStr (S ''/music/eclo_1700000000000.wav''))
   \<and> result_duration (close_handler [] [] (Some 0) (S ''/music/eclo_1700000000000.wav'')) = None
   \<and> close_handler (S ''Traceback (most recent call last):'') [] (Some 0) (S ''/music/eclo_1700000000000.wav'')
     = Resolve (JObj [(S ''success'', JBool True),
                      (S ''outputPath'', JStr (S ''/music/eclo_1700000000000.wav''))])"
proof -
  have e: "JSON_parse (trim []) = None"
    by code_simp
  have g: "JSON_parse (trim (S ''Traceback (most recent call last):'')) = None"
    by code_simp
  show ?thesis
    using unparsed_stdout_exit_zero [OF e, of "[]" "S ''/music/eclo_1700000000000.wav''"]
      unparsed_stdout_exit_zero [OF g, of "[]" "S ''/music/eclo_1700000000000.wav''"]
    by blast
qed

text \<open>
  Claim C10 at the stdout text \<^verbatim>\<open>null\<close> with exit code 0. The text parses as JSON, the
  value has no \<^verbatim>\<open>success\<close> member, and the promise resolves with the computed path:
  reading \<^verbatim>\<open>result.success\<close> throws inside the try block, and the catch branch, written
  for text that is not JSON, takes the exit code.
\<close>

theorem null_stdout_exit_zero:
  "JSON_parse (trim (S ''null'')) = Some JNull
   \<and> close_handler (S ''null'') [] (Some 0) (S ''/music/eclo_1700000000000.wav'')
     = Resolve (JObj [(S ''success'', JBool True),
                      (S ''outputPath'', JStr (S ''/music/eclo_1700000000000.wav''))])"
  by code_simp

text \<open>
  For a parsed value other than \<^verbatim>\<open>null\<close> whose \<^verbatim>\<open>success\<close> member is falsy or absent:
  without a truthy \<^verbatim>\<open>error\<close> member the promise is rejected with the generic message;
  with one that converts to a string it is rejected with that member; with one that
  does not, the catch branch decides.
\<close>

lemma close_handler_falsy_generic:
  assumes "JSON_parse (trim stdout) = Some result"
    and "getProp result (S ''success'') = Inr flag"
    and "\<not> truthy flag"
    and "getProp result (S ''error'') = Inr err"
    and "\<not> truthy err"
  shows "close_handler stdout stderr code outputFile = Reject (JStr generation_failed)"
  using assms by (cases err) (simp_all add: close_handler_def)

lemma close_handler_falsy_error:
  assumes "JSON_parse (trim stdout) = Some result"
    and "getProp result (S ''success'') = Inr flag"
    and "\<not> truthy flag"
    and "getProp result (S ''error'') = Inr (Some v)"
    and "truthy (Some v)"
  shows "close_handler stdout stderr code outputFile
           = (if toString_throws v then close_catch stderr code outputFile else Reject v)"
  using assms by (simp add: close_handler_def)

lemma close_handler_unconvertible_error:
  \<open>close_handler (S ''{"error":{"toString":1}}'') [] (Some 0) (S ''/music/eclo_1700000000000.wav'')
     = Resolve (JObj [(S ''success'', JBool True),
                      (S ''outputPath'', JStr (S ''/music/eclo_1700000000000.wav''))])\<close>
  by code_simp

section \<open>The stderr stream\<close>

lemma getProp_not_null: "v \<noteq> JNull \<Longrightarrow> \<exists>x. getProp v k = Inr x"
  by (cases v) simp_all

lemma stderr_line_buf:
  "stderr_buf (stderr_line mw st line)
     = stderr_buf st @ (if is_diagnostic_line line \<or> is_null_line line then with_newline line else [])"
proof (cases "JSON_parse line")
  case None
  then show ?thesis
    by (simp add: stderr_line_def is_diagnostic_line_def is_null_line_def with_newline_def)
next
  case (Some parsed)
  show ?thesis
  proof (cases "parsed = JNull")
    case True
    with Some show ?thesis
      by (simp add: stderr_line_def is_diagnostic_line_def is_null_line_def with_newline_def)
  next
    case False
    then obtain t d where "getProp parsed (S ''type'') = Inr t" "getProp parsed (S ''data'') = Inr d"
      using getProp_not_null by blast
    with Some False show ?thesis
      by (simp add: stderr_line_def is_diagnostic_line_def is_null_line_def)
  qed
qed

lemma stderr_line_sent:
  "progress_sent (stderr_line mw st line)
     = progress_sent st @ (if mw \<and> is_progress_line line then [progress_data line] else [])"
proof (cases "JSON_parse line")
  case None
  then show ?thesis
    by (simp add: stderr_line_def is_progress_line_def)
next
  case (Some parsed)
  show ?thesis
  proof (cases "parsed = JNull")
    case True
    with Some show ?thesis
      by (simp add: stderr_line_def is_progress_line_def)
  next
    case False
    then obtain t d where "getProp parsed (S ''type'') = Inr t" "getProp parsed (S ''data'') = Inr d"
      using getProp_not_null by blast
    with Some show ?thesis
      by (simp add: stderr_line_def is_progress_line_def progress_data_def)
  qed
qed

lemma stderr_lines_buf:
  "stderr_buf (foldl (stderr_line mw) st lines)
     = stderr_buf st
       @ concat (map with_newline (filter (\<lambda>line. is_diagnostic_line line \<or> is_null_line line) lines))"
  by (induction lines arbitrary: st) (simp_all add: stderr_line_buf)

lemma stderr_lines_sent:
  "progress_sent (foldl (stderr_line mw) st lines)
     = progress_sent st @ (if mw then map progress_data (filter is_progress_line lines) else [])"
  by (induction lines arbitrary: st) (simp_all add: stderr_line_sent)

lemma progress_line_not_appended:
  assumes "is_progress_line line"
  shows "\<not> is_diagnostic_line line \<and> \<not> is_null_line line"
  using assms
  by (auto simp add: is_progress_line_def is_diagnostic_line_def is_null_line_def split: option.splits)

text \<open>
  Claim C6, as amended. Over the lines of a chunk of stderr, whatever they are: the lines
  that are not blank and do not parse as JSON are appended to the diagnostic text, each
  with a newline, in order (and with them the lines that are the JSON text \<^verbatim>\<open>null\<close>, on
  which the read of the tag throws); the lines that parse as JSON with the progress tag
  are sent as progress events, in order, when the window is set, and are not appended;
  every other line, blank or JSON without the progress tag, is neither appended nor sent.
\<close>

theorem stderr_demultiplexer:
  "stderr_buf (stderr_data mainWindow st data)
     = stderr_buf st
       @ concat (map with_newline
           (filter (\<lambda>line. is_diagnostic_line line \<or> is_null_line line) (split_nl data)))
   \<and> progress_sent (stderr_data mainWindow st data)
       = progress_sent st @
         (if mainWindow then map progress_data (filter is_progress_line (split_nl data)) else [])
   \<and> (\<forall>line. is_progress_line line \<longrightarrow> \<not> is_diagnostic_line line \<and> \<not> is_null_line line)"
  using stderr_lines_buf stderr_lines_sent progress_line_not_appended
  by (simp add: stderr_data_def)

text \<open>
  A chunk with two progress events, a plain line, a JSON line of another type, the JSON
  text \<^verbatim>\<open>null\<close> and a blank line.
\<close>

theorem stderr_demultiplexer_witness:
  \<open>stderr_data True \<lparr>stderr_buf = [], progress_sent = []\<rparr>
     (S ''{"type":"progress","data":{"percent":10,"message":"a"}}'' @ [0x0A]
      @ S ''null'' @ [0x0A]
      @ S ''some plain text'' @ [0x0A]
      @ S ''{"type":"info"}'' @ [0x0A]
      @ S ''   '' @ [0x0A]
      @ S ''{"type":"progress","data":{"percent":50,"message":"b"}}'' @ [0x0A])
   = \<lparr>stderr_buf = S ''null'' @ [0x0A] @ S ''some plain text'' @ [0x0A],
      progress_sent =
        [Some (JObj [(S ''percent'', JNum 10), (S ''message'', JStr (S ''a''))]),
         Some (JObj [(S ''percent'', JNum 50), (S ''message'', JStr (S ''b''))])]\<rparr>\<close>
proof -
  let ?data = \<open>S ''{"type":"progress","data":{"percent":10,"message":"a"}}'' @ [0x0A]
      @ S ''null'' @ [0x0A]
      @ S ''some plain text'' @ [0x0A]
      @ S ''{"type":"info"}'' @ [0x0A]
      @ S ''   '' @ [0x0A]
      @ S ''{"type":"progress","data":{"percent":50,"message":"b"}}'' @ [0x0A]\<close>
  let ?st = "\<lparr>stderr_buf = [], progress_sent = []\<rparr>"
  have b: "stderr_buf ?st
             @ concat (map with_newline
                 (filter (\<lambda>line. is_diagnostic_line line \<or> is_null_line line) (split_nl ?data)))
             = S ''null'' @ [0x0A] @ S ''some plain text'' @ [0x0A]"
    by code_simp
  have p: "progress_sent ?st @ (if True then map progress_data (filter is_progress_line (split_nl ?data)) else [])
             = [Some (JObj [(S ''percent'', JNum 10), (S ''message'', JStr (S ''a''))]),
                Some (JObj [(S ''percent'', JNum 50), (S ''message'', JStr (S ''b''))])]"
    by code_simp
  have "stderr_buf (stderr_data True ?st ?data) = S ''null'' @ [0x0A] @ S ''some plain text'' @ [0x0A]"
    and "progress_sent (stderr_data True ?st ?data)
           = [Some (JObj [(S ''percent'', JNum 10), (S ''message'', JStr (S ''a''))]),
              Some (JObj [(S ''percent'', JNum 50), (S ''message'', JStr (S ''b''))])]"
    using stderr_demultiplexer [of True ?st ?data] b p by simp_all
  then show ?thesis
    by (cases "stderr_data True ?st ?data") simp
qed

text \<open>
  Against claim C6 as stated: the line \<^verbatim>\<open>{"type":"info"}\<close> is JSON without the progress
  tag, and the handler leaves the diagnostic text empty.
\<close>

theorem stderr_demultiplexer_counterexample:
  \<open>JSON_parse (S ''{"type":"info"}'') = Some (JObj [(S ''type'', JStr (S ''info''))])
   \<and> stderr_data True \<lparr>stderr_buf = [], progress_sent = []\<rparr> (S ''{"type":"info"}'')
     = \<lparr>stderr_buf = [], progress_sent = []\<rparr>\<close>
  by code_simp

lemma split_nl_single: "0x0A \<notin> set l \<Longrightarrow> split_nl l = [l]"
  by (induction l) auto

lemma split_nl_line: "0x0A \<notin> set l \<Longrightarrow> split_nl (l @ 0x0A # r) = l # split_nl r"
  by (induction l) auto

lemma split_nl_no_newline: "l \<in> set (split_nl s) \<Longrightarrow> 0x0A \<notin> set l"
proof (induction s arbitrary: l)
  case Nil
  then show ?case by simp
next
  case (Cons c cs)
  show ?case
  proof (cases "c = 0x0A")
    case True
    with Cons show ?thesis by auto
  next
    case False
    with Cons show ?thesis
      by (cases "split_nl cs") auto
  qed
qed

lemma split_nl_join_nl:
  assumes "ls \<noteq> []" and "\<forall>l \<in> set ls. 0x0A \<notin> set l"
  shows "split_nl (join_nl ls) = ls"
  using assms
proof (induction ls rule: join_nl.induct)
  case 1
  then show ?case by simp
next
  case (2 l)
  then show ?case by (simp add: split_nl_single)
next
  case (3 l v va)
  then show ?case by (simp add: split_nl_line)
qed

lemma survivors_roundtrip:
  assumes "filter P (split_nl s) \<noteq> []"
  shows "split_nl (join_nl (filter P (split_nl s))) = filter P (split_nl s)"
  using assms by (intro split_nl_join_nl) (auto dest: split_nl_no_newline)

lemma startsWith_iff_prefix: "startsWith s p \<longleftrightarrow> prefix p s"
  by (induction s p rule: startsWith.induct) auto

lemma includes_str_iff_sublist: "includes_str s p \<longleftrightarrow> sublist p s"
  by (induction s) (simp_all add: startsWith_iff_prefix sublist_Cons_right)

lemma isDigit_iff: "isDigit c \<longleftrightarrow> c \<in> set (S ''0123456789'')"
proof
  assume "isDigit c"
  define n where "n = unat c"
  have c: "c = word_of_nat n"
    by (simp add: n_def)
  from \<open>isDigit c\<close> have "48 \<le> n" "n \<le> 57"
    by (simp_all add: isDigit_def word_le_nat_alt n_def)
  then have "n \<in> {48, 49, 50, 51, 52, 53, 54, 55, 56, 57}"
    by (simp add: numeral_eq_Suc) arith
  then have "word_of_nat n \<in> set (S ''0123456789'')"
    by (auto simp add: S_def)
  then show "c \<in> set (S ''0123456789'')"
    by (simp only: c)
next
  assume "c \<in> set (S ''0123456789'')"
  then show "isDigit c"
    by (auto simp add: S_def isDigit_def)
qed

lemma match_progress_bar_iff: "match_progress_bar t \<longleftrightarrow> progress_bar_rendering t"
proof
  assume m: "match_progress_bar t"
  let ?n = "length (takeWhile isDigit t)"
  from m have ne: "takeWhile isDigit t \<noteq> []"
    by (simp add: match_progress_bar_def)
  from m obtain rest where d: "dropWhile isDigit t = 0x25 # 0x7C # rest"
    by (auto simp add: match_progress_bar_def split: list.splits)
  have tk: "take ?n t = takeWhile isDigit t"
    by (rule takeWhile_eq_take [symmetric])
  have dr: "drop ?n t = dropWhile isDigit t"
    by (rule dropWhile_eq_drop [symmetric])
  have "?n \<in> {1..length t}"
    using ne length_takeWhile_le [of isDigit t] by (cases "takeWhile isDigit t") auto
  moreover have "set (take ?n t) \<subseteq> set (S ''0123456789'')"
    unfolding tk using isDigit_iff by (auto dest: set_takeWhileD)
  moreover have "take 2 (drop ?n t) = [0x25, 0x7C]"
    by (simp add: dr d)
  ultimately show "progress_bar_rendering t"
    unfolding progress_bar_rendering_def by blast
next
  assume "progress_bar_rendering t"
  then obtain n where n: "1 \<le> n" "n \<le> length t"
    and ds: "set (take n t) \<subseteq> set (S ''0123456789'')"
    and pp: "take 2 (drop n t) = [0x25, 0x7C]"
    by (auto simp add: progress_bar_rendering_def)
  from pp obtain rest where dr: "drop n t = 0x25 # 0x7C # rest"
    by (cases "drop n t"; cases "tl (drop n t)") auto
  have t: "t = take n t @ 0x25 # 0x7C # rest"
    using append_take_drop_id [of n t] dr by simp
  have dig: "\<And>x. x \<in> set (take n t) \<Longrightarrow> isDigit x"
    using ds isDigit_iff by blast
  have nd: "\<not> isDigit 0x25"
    by (simp add: isDigit_def)
  have "takeWhile isDigit (take n t @ 0x25 # 0x7C # rest) = take n t"
    using dig nd by (simp add: takeWhile_append2)
  moreover have "dropWhile isDigit (take n t @ 0x25 # 0x7C # rest) = 0x25 # 0x7C # rest"
    using dig nd by (simp add: dropWhile_append2)
  moreover have "take n t \<noteq> []"
    using n by (cases t) auto
  ultimately have "takeWhile isDigit t \<noteq> []" "dropWhile isDigit t = 0x25 # 0x7C # rest"
    using t by metis+
  then show "match_progress_bar t"
    by (simp add: match_progress_bar_def)
qed

lemma keep_line_iff: "keep_line line \<longleftrightarrow> \<not> discarded_line line"
  by (simp add: keep_line_def discarded_line_def Let_def startsWith_iff_prefix
      includes_str_iff_sublist match_progress_bar_iff)

text \<open>What \<open>trim\<close> removes is whitespace at both ends, and all of it.\<close>

lemma trim_decomposition:
  "\<exists>a b. s = a @ trim s @ b \<and> (\<forall>c \<in> set a. isWhiteSpace c) \<and> (\<forall>c \<in> set b. isWhiteSpace c)"
proof -
  let ?a = "takeWhile isWhiteSpace s"
  let ?r = "dropWhile isWhiteSpace s"
  let ?b = "rev (takeWhile isWhiteSpace (rev ?r))"
  have "rev ?r = takeWhile isWhiteSpace (rev ?r) @ dropWhile isWhiteSpace (rev ?r)"
    by simp
  then have "?r = trim s @ ?b"
    by (metis rev_append rev_rev_ident trim_def)
  then have "s = ?a @ trim s @ ?b"
    by (metis takeWhile_dropWhile_id)
  moreover have "\<forall>c \<in> set ?a. isWhiteSpace c"
    by (auto dest: set_takeWhileD)
  moreover have "\<forall>c \<in> set ?b. isWhiteSpace c"
    by (auto dest: set_takeWhileD)
  ultimately show ?thesis by blast
qed

lemma trim_ends:
  assumes "trim s \<noteq> []"
  shows "\<not> isWhiteSpace (hd (trim s)) \<and> \<not> isWhiteSpace (last (trim s))"
proof -
  let ?r = "dropWhile isWhiteSpace s"
  let ?d = "dropWhile isWhiteSpace (rev ?r)"
  from assms have d: "?d \<noteq> []"
    by (simp add: trim_def)
  have r: "?r \<noteq> []"
  proof
    assume "?r = []"
    then have "?d = []" by (simp only: rev.simps dropWhile.simps)
    with d show False by simp
  qed
  have "last (trim s) = hd ?d"
    using d by (simp add: trim_def last_rev)
  moreover have "\<not> isWhiteSpace (hd ?d)"
    using d by (rule hd_dropWhile)
  moreover have "hd (trim s) = last ?d"
    using d by (simp add: trim_def hd_rev)
  moreover have "last ?d = last (rev ?r)"
    using d by (metis append_Nil2 last_appendR takeWhile_dropWhile_id)
  moreover have "last (rev ?r) = hd ?r"
    using r by (simp add: last_rev)
  moreover have "\<not> isWhiteSpace (hd ?r)"
    using r by (rule hd_dropWhile)
  ultimately show ?thesis by simp
qed

text \<open>
  Claim C7, as amended. When stdout does not parse as JSON and the exit code is not 0, the
  promise is rejected with the stderr text from which exactly the discarded lines are
  removed, the remaining lines joined by newlines and the whole trimmed (the generic
  message when nothing remains). The lines of the joined text are the kept lines and no
  others.
\<close>

theorem stderr_failure_message:
  assumes "JSON_parse (trim stdout) = None"
    and "code \<noteq> Some 0"
  shows "close_handler stdout stderr code outputFile
           = Reject (JStr (if errorLines stderr = [] then generation_failed else errorLines stderr))
       \<and> errorLines stderr
           = trim (join_nl (filter (\<lambda>line. \<not> discarded_line line) (split_nl stderr)))
       \<and> (filter (\<lambda>line. \<not> discarded_line line) (split_nl stderr) \<noteq> [] \<longrightarrow>
            split_nl (join_nl (filter (\<lambda>line. \<not> discarded_line line) (split_nl stderr)))
              = filter (\<lambda>line. \<not> discarded_line line) (split_nl stderr))"
proof -
  have k: "keep_line = (\<lambda>line. \<not> discarded_line line)"
    by (rule ext) (rule keep_line_iff)
  have "close_handler stdout stderr code outputFile
          = Reject (JStr (if errorLines stderr = [] then generation_failed else errorLines stderr))"
    using close_handler_unparsed [OF assms(1)] assms(2)
    by (simp add: close_catch_def)
  moreover have "errorLines stderr
      = trim (join_nl (filter (\<lambda>line. \<not> discarded_line line) (split_nl stderr)))"
    by (simp add: errorLines_def k)
  ultimately show ?thesis
    using survivors_roundtrip by blast
qed

text \<open>
  The example of the specification (empty stdout, exit code 1, and the three stderr lines
  as the data handler collects them), and the text \<open>noisy_stderr\<close>, of which the four
  kept lines remain.
\<close>

theorem stderr_failure_message_witness:
  "close_handler []
     (stderr_buf (stderr_data True \<lparr>stderr_buf = [], progress_sent = []\<rparr>
        (S ''Fetching model...'' @ [0x0A]
         @ S ''45%|'' @ [0x2588, 0x2588, 0x2588, 0x2588] @ [0x0A]
         @ S ''real error: disk full'' @ [0x0A])))
     (Some 1) (S ''/music/eclo_1700000000000.wav'')
   = Reject (JStr (S ''real error: disk full''))
   \<and> close_handler [] noisy_stderr (Some 1) (S ''/music/eclo_1700000000000.wav'')
     = Reject (JStr (S ''Now Fetching weights'' @ [0x0A]
                     @ S ''lib.py:5: DeprecationWarning: z'' @ [0x0A]
                     @ S ''%|'' @ [0x0A]
                     @ S ''RuntimeError: out of memory''))
   \<and> filter (\<lambda>line. \<not> discarded_line line) (split_nl noisy_stderr)
     = [S ''Now Fetching weights'', S ''lib.py:5: DeprecationWarning: z'', S ''%|'',
        S ''RuntimeError: out of memory  '']"
proof -
  let ?stderr = "stderr_buf (stderr_data True \<lparr>stderr_buf = [], progress_sent = []\<rparr>
        (S ''Fetching model...'' @ [0x0A]
         @ S ''45%|'' @ [0x2588, 0x2588, 0x2588, 0x2588] @ [0x0A]
         @ S ''real error: disk full'' @ [0x0A]))"
  let ?out = "S ''/music/eclo_1700000000000.wav''"
  let ?kept = "S ''Now Fetching weights'' @ [0x0A]
                     @ S ''lib.py:5: DeprecationWarning: z'' @ [0x0A]
                     @ S ''%|'' @ [0x0A]
                     @ S ''RuntimeError: out of memory''"
  have e: "JSON_parse (trim []) = None"
    by code_simp
  have c: "Some (1::int) \<noteq> Some 0"
    by simp
  have l: "errorLines ?stderr = S ''real error: disk full''"
    by code_simp
  have n: "S ''real error: disk full'' \<noteq> []"
    by (simp add: S_def)
  have l2: "errorLines noisy_stderr = ?kept"
    by code_simp
  have n2: "?kept \<noteq> []"
    by (simp add: S_def)
  have f: "filter keep_line (split_nl noisy_stderr)
     = [S ''Now Fetching weights'', S ''lib.py:5: DeprecationWarning: z'', S ''%|'',
        S ''RuntimeError: out of memory  '']"
    by code_simp
  have k: "keep_line = (\<lambda>line. \<not> discarded_line line)"
    by (rule ext) (rule keep_line_iff)
  have "close_handler [] ?stderr (Some 1) ?out = Reject (JStr (S ''real error: disk full''))"
    using stderr_failure_message [OF e c, of ?stderr ?out] l n by simp
  moreover have "close_handler [] noisy_stderr (Some 1) ?out = Reject (JStr ?kept)"
    using stderr_failure_message [OF e c, of noisy_stderr ?out] l2 n2 by simp
  moreover have "filter (\<lambda>line. \<not> discarded_line line) (split_nl noisy_stderr)
     = [S ''Now Fetching weights'', S ''lib.py:5: DeprecationWarning: z'', S ''%|'',
        S ''RuntimeError: out of memory  '']"
    using f by (simp only: k)
  ultimately show ?thesis
    by blast
qed

text \<open>
  Against claim C7 as stated: a deprecation warning of the Python interpreter is not
  discarded; it is the failure message.
\<close>

theorem stderr_failure_message_counterexample:
  "close_handler []
     (stderr_buf (stderr_data True \<lparr>stderr_buf = [], progress_sent = []\<rparr>
        (S ''/app/tts_service.py:12: DeprecationWarning: load() is deprecated'' @ [0x0A])))
     (Some 1) (S ''/music/eclo_1700000000000.wav'')
   = Reject (JStr (S ''/app/tts_service.py:12: DeprecationWarning: load() is deprecated''))"
  by code_simp

section \<open>The history store\<close>

lemma add_history_item_front:
  "snd (add_history_item item newId now h)
     = \<lparr>item_fields = item, item_id = newId, item_timestamp = now\<rparr>
       # (if length h \<ge> 100 then butlast h else h)"
  by (auto simp add: add_history_item_def Let_def)

lemma add_history_item_take:
  assumes "length h \<le> 100"
  shows "snd (add_history_item item newId now h)
           = take 100 (\<lparr>item_fields = item, item_id = newId, item_timestamp = now\<rparr> # h)"
proof (cases "length h = 100")
  case True
  then show ?thesis
    by (simp add: add_history_item_front butlast_conv_take)
next
  case False
  with assms show ?thesis
    by (simp add: add_history_item_front)
qed

lemma take_append_take: "take n (xs @ take n ys) = take n (xs @ ys)"
  by (simp add: min_def)

lemma add_all_take:
  assumes "length h \<le> 100"
  shows "add_all xs h = take 100 (rev (map stored xs) @ h)"
  using assms
proof (induction xs arbitrary: h)
  case Nil
  then show ?case by (simp add: add_all_def)
next
  case (Cons x xs)
  obtain item newId now where x: "x = (item, newId, now)"
    by (cases x) auto
  let ?h = "snd (add_history_item item newId now h)"
  have step: "?h = take 100 (stored x # h)"
    using add_history_item_take [OF Cons.prems] by (simp add: x stored_def)
  then have len: "length ?h \<le> 100"
    by simp
  have "add_all (x # xs) h = add_all xs ?h"
    by (simp add: add_all_def x)
  also have "\<dots> = take 100 (rev (map stored xs) @ ?h)"
    using len by (rule Cons.IH)
  also have "\<dots> = take 100 (rev (map stored xs) @ take 100 (stored x # h))"
    by (simp only: step)
  also have "\<dots> = take 100 (rev (map stored xs) @ stored x # h)"
    by (rule take_append_take)
  also have "\<dots> = take 100 (rev (map stored (x # xs)) @ h)"
    by simp
  finally show ?case .
qed

text \<open>
  Claim C8. An append puts the new entry at the front and, when the array then holds more
  than 100 entries, drops the last one, the oldest; a store of at most 100 entries stays
  so. Appends to the empty store leave the last 100 appended entries, newest first: after
  101 appends exactly 100 entries remain, all but the first appended, newest first.
\<close>

theorem history_cap:
  "snd (add_history_item item newId now h)
     = \<lparr>item_fields = item, item_id = newId, item_timestamp = now\<rparr>
       # (if length h \<ge> 100 then butlast h else h)
   \<and> (length h \<le> 100 \<longrightarrow> length (snd (add_history_item item newId now h)) \<le> 100)
   \<and> add_all xs [] = take 100 (rev (map stored xs))
   \<and> (length xs = 101 \<longrightarrow>
        length (add_all xs []) = 100
        \<and> add_all xs [] = rev (map stored (tl xs))
        \<and> (distinct (map stored xs) \<longrightarrow> stored (hd xs) \<notin> set (add_all xs [])))"
proof -
  have a: "add_all xs [] = take 100 (rev (map stored xs))"
    using add_all_take [of "[]" xs] by simp
  have b: "length (snd (add_history_item item newId now h)) \<le> 100" if "length h \<le> 100"
    using add_history_item_take [OF that] by simp
  have c: "length (add_all xs []) = 100
        \<and> add_all xs [] = rev (map stored (tl xs))
        \<and> (distinct (map stored xs) \<longrightarrow> stored (hd xs) \<notin> set (add_all xs []))"
    if len: "length xs = 101"
  proof -
    from len obtain y ys where xs: "xs = y # ys" and ys: "length ys = 100"
      by (cases xs) auto
    have "add_all (y # ys) [] = take 100 (rev (map stored (y # ys)))"
      using a xs by simp
    then have "add_all (y # ys) [] = rev (map stored ys)"
      by (simp add: ys)
    then show ?thesis
      by (auto simp add: xs ys)
  qed
  from b have b': "length h \<le> 100 \<longrightarrow> length (snd (add_history_item item newId now h)) \<le> 100"
    by (rule impI)
  from c have c': "length xs = 101 \<longrightarrow>
        length (add_all xs []) = 100
        \<and> add_all xs [] = rev (map stored (tl xs))
        \<and> (distinct (map stored xs) \<longrightarrow> stored (hd xs) \<notin> set (add_all xs []))"
    by (rule impI)
  from add_history_item_front [of item newId now h] b' a c' show ?thesis
    by (intro conjI)
qed

theorem history_cap_witness:
  "length (add_all example_entries []) = 100
   \<and> add_all example_entries [] = rev (map stored (tl example_entries))
   \<and> stored (hd example_entries) \<notin> set (add_all example_entries [])
   \<and> hd (add_all example_entries []) = \<lparr>item_fields = (), item_id = [100], item_timestamp = []\<rparr>
   \<and> last (add_all example_entries []) = \<lparr>item_fields = (), item_id = [1], item_timestamp = []\<rparr>"
proof -
  have l: "length example_entries = 101"
    by (simp add: example_entries_def)
  have d: "distinct (map stored example_entries)"
    by code_simp
  have h: "hd (rev (map stored (tl example_entries))) = \<lparr>item_fields = (), item_id = [100], item_timestamp = []\<rparr>"
    by code_simp
  have t: "last (rev (map stored (tl example_entries))) = \<lparr>item_fields = (), item_id = [1], item_timestamp = []\<rparr>"
    by code_simp
  from history_cap [of "()" "[]" "[]" "[]" example_entries] l d
  have r: "length (add_all example_entries []) = 100"
    "add_all example_entries [] = rev (map stored (tl example_entries))"
    "stored (hd example_entries) \<notin> set (add_all example_entries [])"
    by blast+
  from r(2) h t
  have "hd (add_all example_entries []) = \<lparr>item_fields = (), item_id = [100], item_timestamp = []\<rparr>"
    and "last (add_all example_entries []) = \<lparr>item_fields = (), item_id = [1], item_timestamp = []\<rparr>"
    by simp_all
  with r show ?thesis
    by blast
qed

text \<open>
  Claim C9, as amended. The remove operation returns true whether or not an entry with
  the id exists; it removes every entry with that id, and leaves the entries unchanged
  when no entry has it.
\<close>

theorem history_remove:
  "fst (delete_history_item i h) = True
   \<and> snd (delete_history_item i h) = filter (\<lambda>x. item_id x \<noteq> i) h
   \<and> (i \<notin> item_id ` set h \<longrightarrow> snd (delete_history_item i h) = h)"
proof -
  have "filter (\<lambda>x. item_id x \<noteq> i) h = h" if "i \<notin> item_id ` set h"
    using that by (induction h) auto
  then show ?thesis
    by (simp add: delete_history_item_def)
qed

theorem history_remove_witness:
  "snd (delete_history_item (S ''b'') [\<lparr>item_fields = (), item_id = S ''a'', item_timestamp = []\<rparr>])
     = [\<lparr>item_fields = (), item_id = S ''a'', item_timestamp = []\<rparr>]
   \<and> fst (delete_history_item (S ''b'') [\<lparr>item_fields = (), item_id = S ''a'', item_timestamp = []\<rparr>]) = True"
proof -
  have "S ''b'' \<notin> item_id ` set [\<lparr>item_fields = (), item_id = S ''a'', item_timestamp = []\<rparr>]"
    by (simp add: S_def)
  then show ?thesis
    using history_remove [of "S ''b''" "[\<lparr>item_fields = (), item_id = S ''a'', item_timestamp = []\<rparr>]"]
    by blast
qed

text \<open>
  Against claim C9 as stated: removing an id no entry has returns true.
\<close>

theorem history_remove_counterexample:
  "fst (delete_history_item (S ''b'') [\<lparr>item_fields = (), item_id = S ''a'', item_timestamp = []\<rparr>]) = True
   \<and> S ''b'' \<notin> item_id ` set [\<lparr>item_fields = (), item_id = S ''a'', item_timestamp = []\<rparr>]"
  by (simp add: delete_history_item_def S_def)

section \<open>Validation before the spawn\<close>

text \<open>
  Claim C4. When the text field is empty after trimming, \<^verbatim>\<open>generateTTS\<close> returns after
  the alert \<^verbatim>\<open>Please enter text to convert\<close> and no process is spawned.
\<close>

theorem empty_text_no_spawn:
  assumes "trim (tts_text app) = []"
  shows "generateTTS pf app = Inl (S ''Please enter text to convert'')
       \<and> spawned pf modelId outputFile app = []"
  using assms by (simp add: generateTTS_def spawned_def)

theorem empty_text_no_spawn_witness:
  "generateTTS example_platform blank_text_app = Inl (S ''Please enter text to convert'')
   \<and> spawned example_platform (S ''custom'') (S ''/music/eclo_1700000000000.wav'') blank_text_app = []"
proof -
  have "trim (tts_text blank_text_app) = []"
    by code_simp
  then show ?thesis
    by (rule empty_text_no_spawn)
qed

text \<open>
  Claim C5 at the Kokoro model, whose \<^verbatim>\<open>voiceCloning\<close> and \<^verbatim>\<open>presetVoices\<close> are both
  false, with the text \<^verbatim>\<open>Hello\<close> and no voice: \<^verbatim>\<open>updateGenerateButtonState\<close> enables
  the button, and \<^verbatim>\<open>generateTTS\<close> returns after the alert \<^verbatim>\<open>Please select a voice\<close>
  without a spawn.
\<close>

theorem voiceless_model_rejected:
  "updateGenerateButtonState kokoro_app = False
   \<and> generateTTS pf kokoro_app = Inl (S ''Please select a voice'')
   \<and> spawned pf modelId outputFile kokoro_app = []"
proof -
  have t: "trim (tts_text kokoro_app) = S ''Hello''"
    by code_simp
  have n: "S ''Hello'' \<noteq> []"
    by (simp add: S_def)
  have v: "selectedVoice kokoro_app = None"
    by (simp add: kokoro_app_def)
  have c: "currentModelCapabilities kokoro_app = Some kokoro_capabilities"
    by (simp add: kokoro_app_def)
  have g: "generateTTS pf kokoro_app = Inl (S ''Please select a voice'')"
    using t n v by (simp add: generateTTS_def)
  have b: "updateGenerateButtonState kokoro_app = False"
    using t n v c by (simp add: updateGenerateButtonState_def kokoro_capabilities_def)
  show ?thesis
    using g b by (simp add: spawned_def)
qed

text \<open>
  Whatever the capabilities, a request without a selected voice is not spawned.
\<close>

lemma no_voice_no_spawn:
  assumes "selectedVoice app = None"
  shows "spawned pf modelId outputFile app = []"
  using assms by (simp add: generateTTS_def spawned_def Let_def)

end
